theory Spec2Isabelle
  imports Main
begin

section \<open>The lie counter: data model\<close>

text \<open>
  The program \<^verbatim>\<open>fetch_lies.py\<close> keeps a small record in \<^verbatim>\<open>data.json\<close>, queries a
  fact-check service once, filters the reviews of the last 24 hours whose rating reads as
  false, and updates the record. The embedding below follows the source function by
  function. Python's unbounded integers are \<^typ>\<open>int\<close>, Python strings are
  \<^typ>\<open>string\<close>, a raised exception is the \<open>Inl\<close> branch of a sum.
\<close>

datatype error = JSONDecodeError | IOError | TypeError

text \<open>
  One entry of \<^verbatim>\<open>recent_lies\<close>: the dictionary literal built at lines 110-116 of the
  source, with exactly the keys \<^verbatim>\<open>date\<close>, \<^verbatim>\<open>claim\<close>, \<^verbatim>\<open>rating\<close>, \<^verbatim>\<open>source\<close>,
  \<^verbatim>\<open>url\<close>.
\<close>

record flagged_claim =
  date :: string
  claim :: string
  rating :: string
  source :: string
  url :: string

text \<open>
  The dictionary \<^verbatim>\<open>data\<close> that \<^verbatim>\<open>load_data\<close> returns and \<^verbatim>\<open>save_data\<close> writes. The
  program reads and writes the four keys below and no other; the record stands for a
  dictionary that carries them with the types the program itself writes (three integers
  and a list of entries).
\<close>

record state =
  days_since_lie :: int
  term_1 :: int
  term_2 :: int
  recent_lies :: "flagged_claim list"

section \<open>The counter updater\<close>

text \<open>
  \<^verbatim>\<open>data["recent_lies"].insert(0, claim)\<close> puts the entry in front of the list; the loop
  \<^verbatim>\<open>for claim in false_claims\<close> does so for each entry from the first to the last.
\<close>

fun insert_all :: "flagged_claim list \<Rightarrow> flagged_claim list \<Rightarrow> flagged_claim list" where
  "insert_all [] lies = lies"
| "insert_all (c # false_claims) lies = insert_all false_claims (c # lies)"

text \<open>
  \<^verbatim>\<open>update_counter(data, false_claims)\<close>, lines 132-148. A non-empty list is truthy:
  the counter is reset, \<^verbatim>\<open>term_2\<close> grows by \<^verbatim>\<open>len(false_claims)\<close>, the entries are
  inserted and the slice \<^verbatim>\<open>[:10]\<close> keeps the first ten. Otherwise only the counter
  is incremented.
\<close>

definition update_counter :: "state \<Rightarrow> flagged_claim list \<Rightarrow> state" where
  "update_counter data false_claims =
     (if false_claims \<noteq> [] then
        data\<lparr>days_since_lie := 0,
             term_2 := term_2 data + int (length false_claims),
             recent_lies := take 10 (insert_all false_claims (recent_lies data))\<rparr>
      else
        data\<lparr>days_since_lie := days_since_lie data + 1\<rparr>)"

section \<open>The claim filter\<close>

text \<open>
  The records the fact-check service returns. Every key is optional, as the source reads
  each of them with \<^verbatim>\<open>in\<close> or \<^verbatim>\<open>.get\<close>: a key that is absent is \<open>None\<close>. The
  model covers the documented shape of the response, where a key that is present holds
  a string (an object for \<^verbatim>\<open>publisher\<close>, an array of reviews for \<^verbatim>\<open>claimReview\<close>).
\<close>

record publisher_obj =
  publisher_name :: "string option"

record raw_review =
  reviewDate :: "string option"
  textualRating :: "string option"
  publisher :: "publisher_obj option"
  review_url :: "string option"

record raw_claim =
  claim_text :: "string option"
  claimReview :: "raw_review list option"

text \<open>
  A \<^verbatim>\<open>datetime\<close> object, as far as the program looks at it: the wall-clock time it
  shows, counted in microseconds, and its \<^verbatim>\<open>tzinfo\<close>. A naive object has no offset
  (\<open>None\<close>); an aware one has its offset from UTC in microseconds.
\<close>

record datetime =
  wall :: int
  utcoffset :: "int option"

text \<open>
  The two methods of Python's \<^verbatim>\<open>datetime\<close> class the filter calls are library code and
  are taken as parameters: \<^verbatim>\<open>datetime.fromisoformat\<close>, where \<open>None\<close> stands for the
  \<^verbatim>\<open>ValueError\<close> of a string it does not accept, and \<^verbatim>\<open>strftime("%Y-%m-%d")\<close>.
\<close>

record pydatetime =
  fromisoformat :: "string \<Rightarrow> datetime option"
  strftime_ymd :: "datetime \<Rightarrow> string"

text \<open>
  \<^verbatim>\<open>a < b\<close> on two \<^verbatim>\<open>datetime\<close> objects: two aware objects are compared as instants
  (each wall-clock time less its offset), two naive ones by their wall-clock times, and
  comparing a naive object with an aware one raises \<^verbatim>\<open>TypeError\<close>.
\<close>

definition datetime_lt :: "datetime \<Rightarrow> datetime \<Rightarrow> error + bool" where
  "datetime_lt a b =
     (case (utcoffset a, utcoffset b) of
        (None, None) \<Rightarrow> Inr (wall a < wall b)
      | (Some oa, Some ob) \<Rightarrow> Inr (wall a - oa < wall b - ob)
      | _ \<Rightarrow> Inl TypeError)"

text \<open>\<^verbatim>\<open>timedelta(days=1)\<close> in microseconds.\<close>

definition one_day :: int where
  "one_day = 86400000000"

text \<open>\<^verbatim>\<open>s.replace(old, new)\<close> for a one-character \<^verbatim>\<open>old\<close>.\<close>

definition replace_char :: "char \<Rightarrow> string \<Rightarrow> string \<Rightarrow> string" where
  "replace_char old new s = concat (map (\<lambda>c. if c = old then new else [c]) s)"

text \<open>
  \<^verbatim>\<open>s.lower()\<close> on a string written in ASCII: the letters A to Z become a to z and
  every other character stays. (Python lowers letters beyond ASCII by the Unicode tables;
  they are left as they are here, and the keywords searched for are ASCII.)
\<close>

definition lower_char :: "char \<Rightarrow> char" where
  "lower_char c =
     (case map_of (zip ''ABCDEFGHIJKLMNOPQRSTUVWXYZ'' ''abcdefghijklmnopqrstuvwxyz'') c of
        None \<Rightarrow> c
      | Some l \<Rightarrow> l)"

definition lower :: "string \<Rightarrow> string" where
  "lower s = map lower_char s"

text \<open>\<^verbatim>\<open>sub in s\<close> on strings: \<^verbatim>\<open>sub\<close> starts at some position of \<^verbatim>\<open>s\<close>.\<close>

fun starts_with :: "string \<Rightarrow> string \<Rightarrow> bool" where
  "starts_with [] s = True"
| "starts_with (c # cs) [] = False"
| "starts_with (c # cs) (d # ds) = (c = d \<and> starts_with cs ds)"

fun str_in :: "string \<Rightarrow> string \<Rightarrow> bool" where
  "str_in sub [] = (sub = [])"
| "str_in sub (c # cs) = (starts_with sub (c # cs) \<or> str_in sub cs)"

text \<open>\<^verbatim>\<open>d.get(key, default)\<close> on an optional key.\<close>

definition dict_get :: "'a option \<Rightarrow> 'a \<Rightarrow> 'a" where
  "dict_get v fallback = (case v of None \<Rightarrow> fallback | Some x \<Rightarrow> x)"

text \<open>The list of keywords of line 109.\<close>

definition false_terms :: "string list" where
  "false_terms = [''false'', ''pants on fire'', ''lie'', ''incorrect'', ''wrong'']"

text \<open>
  Lines 108-109: \<^verbatim>\<open>rating = review.get("textualRating", "").lower()\<close> and the test
  \<^verbatim>\<open>any(term in rating for term in [...])\<close>.
\<close>

definition rating_is_false :: "raw_review \<Rightarrow> bool" where
  "rating_is_false review =
     (let rating = lower (dict_get (textualRating review) [])
      in list_ex (\<lambda>t. str_in t rating) false_terms)"

text \<open>
  Lines 110-116: the entry appended for a review that passed both tests.
  \<^verbatim>\<open>review.get("publisher", {})\<close> is the empty dictionary when the key is absent, and
  the empty dictionary has no \<^verbatim>\<open>name\<close>.
\<close>

definition flagged_entry :: "pydatetime \<Rightarrow> raw_claim \<Rightarrow> raw_review \<Rightarrow> datetime \<Rightarrow> flagged_claim" where
  "flagged_entry lib clm review review_date =
     \<lparr>date = strftime_ymd lib review_date,
      claim = dict_get (claim_text clm) ''Unknown claim'',
      rating = dict_get (textualRating review) ''Unknown'',
      source = dict_get (publisher_name (dict_get (publisher review) \<lparr>publisher_name = None\<rparr>))
                 ''Unknown source'',
      url = dict_get (review_url review) []\<rparr>"

text \<open>
  The body of the inner loop, lines 93-116, for one review: \<open>Inr None\<close> when a
  \<^verbatim>\<open>continue\<close> is taken or the rating does not match, \<open>Inr (Some e)\<close> when the entry
  \<open>e\<close> is appended, \<open>Inl\<close> when the comparison of line 104 raises. Only line 99 stands
  inside the \<^verbatim>\<open>try\<close>. \<^verbatim>\<open>not review_date_str\<close> holds for an absent key and for the
  empty string.
\<close>

definition review_step :: "pydatetime \<Rightarrow> datetime \<Rightarrow> raw_claim \<Rightarrow> raw_review \<Rightarrow> error + flagged_claim option" where
  "review_step lib cutoff_time clm review =
     (case reviewDate review of
        None \<Rightarrow> Inr None
      | Some review_date_str \<Rightarrow>
          if review_date_str = [] then Inr None
          else
            (case fromisoformat lib (replace_char CHR ''Z'' ''+00:00'' review_date_str) of
               None \<Rightarrow> Inr None
             | Some review_date \<Rightarrow>
                 (case datetime_lt review_date cutoff_time of
                    Inl e \<Rightarrow> Inl e
                  | Inr True \<Rightarrow> Inr None
                  | Inr False \<Rightarrow>
                      if rating_is_false review
                      then Inr (Some (flagged_entry lib clm review review_date))
                      else Inr None)))"

text \<open>The inner loop \<^verbatim>\<open>for review in claim["claimReview"]\<close>, appending to the result list.\<close>

fun reviews_loop :: "pydatetime \<Rightarrow> datetime \<Rightarrow> raw_claim \<Rightarrow> raw_review list \<Rightarrow> flagged_claim list \<Rightarrow> error + flagged_claim list" where
  "reviews_loop lib cutoff_time clm [] recent_false_claims = Inr recent_false_claims"
| "reviews_loop lib cutoff_time clm (review # reviews) recent_false_claims =
     (case review_step lib cutoff_time clm review of
        Inl e \<Rightarrow> Inl e
      | Inr None \<Rightarrow> reviews_loop lib cutoff_time clm reviews recent_false_claims
      | Inr (Some entry) \<Rightarrow>
          reviews_loop lib cutoff_time clm reviews (recent_false_claims @ [entry]))"

text \<open>The outer loop \<^verbatim>\<open>for claim in claims\<close>; a claim without \<^verbatim>\<open>claimReview\<close> is passed over.\<close>

fun claims_loop :: "pydatetime \<Rightarrow> datetime \<Rightarrow> raw_claim list \<Rightarrow> flagged_claim list \<Rightarrow> error + flagged_claim list" where
  "claims_loop lib cutoff_time [] recent_false_claims = Inr recent_false_claims"
| "claims_loop lib cutoff_time (clm # claims) recent_false_claims =
     (case claimReview clm of
        None \<Rightarrow> claims_loop lib cutoff_time claims recent_false_claims
      | Some reviews \<Rightarrow>
          (case reviews_loop lib cutoff_time clm reviews recent_false_claims of
             Inl e \<Rightarrow> Inl e
           | Inr acc \<Rightarrow> claims_loop lib cutoff_time claims acc))"

text \<open>
  \<^verbatim>\<open>check_for_recent_false_claims(claims)\<close>, lines 82-118. The clock read by
  \<^verbatim>\<open>datetime.now(timezone.utc)\<close> is the argument \<open>now_utc\<close>, in microseconds; the object
  it returns is aware, with offset 0.
\<close>

definition check_for_recent_false_claims :: "pydatetime \<Rightarrow> int \<Rightarrow> raw_claim list \<Rightarrow> error + flagged_claim list" where
  "check_for_recent_false_claims lib now_utc claims =
     (let now = \<lparr>wall = now_utc, utcoffset = Some 0\<rparr>;
          cutoff_time = now\<lparr>wall := wall now - one_day\<rparr>
      in claims_loop lib cutoff_time claims [])"

section \<open>The state store, the client and the orchestrator\<close>

text \<open>
  What the program finds outside itself. The file \<^verbatim>\<open>data.json\<close> is absent, holds text
  that \<^verbatim>\<open>json.load\<close> rejects, or holds a record; \<open>writable\<close> tells whether
  \<^verbatim>\<open>open('data.json', 'w')\<close> succeeds; \<open>writes\<close> is the log of the records written so
  far. \<open>api_key\<close> is the environment variable \<^verbatim>\<open>GOOGLE_FACT_CHECK_API_KEY\<close>,
  \<open>http_get\<close> is the answer of the service to the request made with a key, and
  \<open>clock\<close> is the time in microseconds.
\<close>

datatype json_file = Absent | Malformed | Holds state

text \<open>
  The outcome of lines 63-66: a \<^verbatim>\<open>RequestException\<close>, or a body whose key
  \<^verbatim>\<open>claims\<close> is absent or holds a list.
\<close>

datatype response = RequestFailed | Body "raw_claim list option"

record world =
  disk :: json_file
  writable :: bool
  writes :: "state list"
  api_key :: "string option"
  http_get :: "string \<Rightarrow> response"
  clock :: int

text \<open>\<^verbatim>\<open>save_data(data)\<close>, lines 36-41: the \<^verbatim>\<open>IOError\<close> is printed and raised again.\<close>

definition save_data :: "state \<Rightarrow> world \<Rightarrow> (error + unit) \<times> world" where
  "save_data data w =
     (if writable w
      then (Inr (), w\<lparr>disk := Holds data, writes := writes w @ [data]\<rparr>)
      else (Inl IOError, w))"

definition default_data :: state where
  "default_data = \<lparr>days_since_lie = 0, term_1 = 30573, term_2 = 0, recent_lies = []\<rparr>"

text \<open>
  \<^verbatim>\<open>load_data()\<close>, lines 16-31: a missing file is replaced by the default record, which
  is saved at once; malformed text is reported and the \<^verbatim>\<open>JSONDecodeError\<close> raised again.
\<close>

definition load_data :: "world \<Rightarrow> (error + state) \<times> world" where
  "load_data w =
     (case disk w of
        Holds data \<Rightarrow> (Inr data, w)
      | Absent \<Rightarrow>
          (case save_data default_data w of
             (Inl e, w') \<Rightarrow> (Inl e, w')
           | (Inr u, w') \<Rightarrow> (Inr default_data, w'))
      | Malformed \<Rightarrow> (Inl JSONDecodeError, w))"

text \<open>
  \<^verbatim>\<open>fetch_fact_checks(api_key)\<close>, lines 62-69: \<^verbatim>\<open>data.get("claims", [])\<close> on success,
  the empty list on a \<^verbatim>\<open>RequestException\<close>.
\<close>

definition fetch_fact_checks :: "world \<Rightarrow> string \<Rightarrow> raw_claim list" where
  "fetch_fact_checks w key =
     (case http_get w key of
        RequestFailed \<Rightarrow> []
      | Body claims \<Rightarrow> dict_get claims [])"

text \<open>Lines 161-165 of \<^verbatim>\<open>main\<close>: the branch taken when no key is set.\<close>

definition main_without_key :: "world \<Rightarrow> (error + unit) \<times> world" where
  "main_without_key w =
     (case load_data w of
        (Inl e, w1) \<Rightarrow> (Inl e, w1)
      | (Inr data, w1) \<Rightarrow> save_data (data\<lparr>days_since_lie := days_since_lie data + 1\<rparr>) w1)"

text \<open>Lines 168-188 of \<^verbatim>\<open>main\<close>: load, fetch, filter, update, save.\<close>

definition main_with_key :: "pydatetime \<Rightarrow> string \<Rightarrow> world \<Rightarrow> (error + unit) \<times> world" where
  "main_with_key lib key w =
     (case load_data w of
        (Inl e, w1) \<Rightarrow> (Inl e, w1)
      | (Inr data, w1) \<Rightarrow>
          (let claims = fetch_fact_checks w1 key in
           if claims = [] then
             save_data (data\<lparr>days_since_lie := days_since_lie data + 1\<rparr>) w1
           else
             (case check_for_recent_false_claims lib (clock w1) claims of
                Inl e \<Rightarrow> (Inl e, w1)
              | Inr false_claims \<Rightarrow> save_data (update_counter data false_claims) w1)))"

text \<open>
  \<^verbatim>\<open>main()\<close>: \<^verbatim>\<open>not api_key\<close> holds when the variable is unset and when it is the
  empty string. The result \<open>Inr ()\<close> is the normal return, \<open>Inl e\<close> an exception that
  leaves \<^verbatim>\<open>main\<close>.
\<close>

definition main :: "pydatetime \<Rightarrow> world \<Rightarrow> (error + unit) \<times> world" where
  "main lib w =
     (case api_key w of
        None \<Rightarrow> main_without_key w
      | Some key \<Rightarrow> if key = [] then main_without_key w else main_with_key lib key w)"

section \<open>Sample inputs\<close>

text \<open>Concrete values on which the definitions are run below.\<close>

definition lie_a :: flagged_claim where
  "lie_a = \<lparr>date = ''2024-05-01'', claim = ''A'', rating = ''False'',
            source = ''PolitiFact'', url = ''https://example.org/a''\<rparr>"

definition lie_b :: flagged_claim where
  "lie_b = \<lparr>date = ''2024-05-02'', claim = ''B'', rating = ''Pants on Fire!'',
            source = ''Snopes'', url = ''https://example.org/b''\<rparr>"

definition state_5 :: state where
  "state_5 = \<lparr>days_since_lie = 5, term_1 = 30573, term_2 = 10, recent_lies = []\<rparr>"

definition state_full :: state where
  "state_full = \<lparr>days_since_lie = 3, term_1 = 30573, term_2 = 10,
                 recent_lies = replicate 10 lie_a\<rparr>"

text \<open>
  Noon of 1 May 2024 in UTC, in microseconds since 1970, and a library that knows this
  one timestamp, with an offset and without.
\<close>

definition noon :: int where
  "noon = 1714564800000000"

definition sample_lib :: pydatetime where
  "sample_lib =
     \<lparr>fromisoformat = (\<lambda>s. if s = ''2024-05-01T12:00:00+00:00''
                             then Some \<lparr>wall = noon, utcoffset = Some 0\<rparr>
                           else if s = ''2024-05-01T12:00:00''
                             then Some \<lparr>wall = noon, utcoffset = None\<rparr>
                           else None),
      strftime_ymd = (\<lambda>d. if wall d div one_day = 19844 then ''2024-05-01'' else ''other'')\<rparr>"

definition review_bare :: raw_review where
  "review_bare = \<lparr>reviewDate = Some ''2024-05-01T12:00:00Z'',
                  textualRating = Some ''Pants on Fire!'',
                  publisher = None, review_url = None\<rparr>"

definition claim_bare :: raw_claim where
  "claim_bare = \<lparr>claim_text = None, claimReview = Some [review_bare]\<rparr>"

definition review_unrated :: raw_review where
  "review_unrated = \<lparr>reviewDate = Some ''2024-05-01T12:00:00Z'', textualRating = None,
                     publisher = Some \<lparr>publisher_name = Some ''Snopes''\<rparr>,
                     review_url = Some ''https://example.org/r''\<rparr>"

definition review_naive :: raw_review where
  "review_naive = \<lparr>reviewDate = Some ''2024-05-01T12:00:00'', textualRating = Some ''False'',
                   publisher = None, review_url = None\<rparr>"

definition world_0 :: world where
  "world_0 = \<lparr>disk = Absent, writable = True, writes = [], api_key = None,
              http_get = (\<lambda>key. RequestFailed), clock = noon\<rparr>"

definition world_1 :: world where
  "world_1 = \<lparr>disk = Holds state_5, writable = True, writes = [],
              api_key = Some ''key'',
              http_get = (\<lambda>key. Body (Some [claim_bare])), clock = noon + 3600000000\<rparr>"

definition world_bad :: world where
  "world_bad = \<lparr>disk = Malformed, writable = True, writes = [],
                api_key = Some ''key'',
                http_get = (\<lambda>key. Body (Some [claim_bare])), clock = noon\<rparr>"

section \<open>Properties of the counter updater\<close>

lemma insert_all_rev: "insert_all false_claims lies = rev false_claims @ lies"
  by (induction false_claims arbitrary: lies) simp_all

text \<open>
  Claim C1. For every state and every non-empty list of flagged claims,
  \<^verbatim>\<open>update_counter\<close> returns a state whose \<^verbatim>\<open>days_since_lie\<close> is 0 and whose
  \<^verbatim>\<open>term_2\<close> is the old \<^verbatim>\<open>term_2\<close> plus the length of the list.
\<close>

theorem update_counter_reset:
  assumes "L \<noteq> []"
  shows "days_since_lie (update_counter S L) = 0
       \<and> term_2 (update_counter S L) = term_2 S + int (length L)"
  using assms by (simp add: update_counter_def)

theorem update_counter_reset_witness:
  "[lie_a, lie_b] \<noteq> []
   \<and> days_since_lie (update_counter state_5 [lie_a, lie_b]) = 0
   \<and> term_2 (update_counter state_5 [lie_a, lie_b]) = 12"
  using update_counter_reset [of "[lie_a, lie_b]" state_5]
  by (simp add: state_5_def)

text \<open>
  Claim C2. For every state, \<^verbatim>\<open>update_counter\<close> with the empty list leaves every
  field as it is except \<^verbatim>\<open>days_since_lie\<close>, which grows by one; \<^verbatim>\<open>term_1\<close>,
  \<^verbatim>\<open>term_2\<close> and \<^verbatim>\<open>recent_lies\<close> are the same before and after.
\<close>

theorem update_counter_empty:
  "update_counter S [] = S\<lparr>days_since_lie := days_since_lie S + 1\<rparr>
   \<and> days_since_lie (update_counter S []) = days_since_lie S + 1
   \<and> term_1 (update_counter S []) = term_1 S
   \<and> term_2 (update_counter S []) = term_2 S
   \<and> recent_lies (update_counter S []) = recent_lies S"
  by (simp add: update_counter_def)

theorem update_counter_empty_witness:
  "update_counter state_5 [] = \<lparr>days_since_lie = 6, term_1 = 30573, term_2 = 10, recent_lies = []\<rparr>"
  using update_counter_empty [of state_5]
  by (simp add: state_5_def)

text \<open>
  Claim C3. For every state and every non-empty list of flagged claims, the
  \<^verbatim>\<open>recent_lies\<close> of the result is the reversed list followed by the old
  \<^verbatim>\<open>recent_lies\<close>, cut to its first ten entries: the entry processed last comes first.
\<close>

theorem update_counter_recent_lies:
  assumes "L \<noteq> []"
  shows "recent_lies (update_counter S L) = take 10 (rev L @ recent_lies S)"
  using assms by (simp add: update_counter_def insert_all_rev)

theorem update_counter_recent_lies_witness:
  "[lie_a, lie_b] \<noteq> []
   \<and> recent_lies (update_counter state_5 [lie_a, lie_b]) = [lie_b, lie_a]"
  using update_counter_recent_lies [of "[lie_a, lie_b]" state_5]
  by (simp add: state_5_def)

lemma update_counter_length_nonempty:
  "L \<noteq> [] \<Longrightarrow> length (recent_lies (update_counter S L)) \<le> 10"
  by (simp add: update_counter_def)

text \<open>
  Claim C4. For every state, that is, every record whose \<^verbatim>\<open>recent_lies\<close> has at most
  ten entries as the data model requires, and every list of flagged claims of any size,
  the \<^verbatim>\<open>recent_lies\<close> of the result has at most ten entries. (With a non-empty list
  the bound holds whatever came in, by the lemma above.)
\<close>

theorem update_counter_length:
  assumes "length (recent_lies S) \<le> 10"
  shows "length (recent_lies (update_counter S L)) \<le> 10"
  using assms by (simp add: update_counter_def)

theorem update_counter_length_witness:
  "length (recent_lies state_full) \<le> 10
   \<and> length (recent_lies (update_counter state_full (replicate 12 lie_b))) \<le> 10
   \<and> recent_lies (update_counter state_full (replicate 12 lie_b)) = replicate 10 lie_b
   \<and> length (recent_lies (update_counter state_full [])) \<le> 10"
proof -
  have h: "length (recent_lies state_full) \<le> 10"
    by (simp add: state_full_def)
  have r: "recent_lies (update_counter state_full (replicate 12 lie_b)) = replicate 10 lie_b"
    by (simp add: update_counter_def insert_all_rev state_full_def)
  show ?thesis
    using update_counter_length [OF h, of "replicate 12 lie_b"]
      update_counter_length [OF h, of "[]"] h r
    by simp
qed

section \<open>Properties of the claim filter\<close>

text \<open>
  The search \<open>str_in\<close> finds exactly the contiguous occurrences: \<open>sub\<close> is in
  \<open>s\<close> when \<open>s\<close> splits into a front, \<open>sub\<close> and a rest.
\<close>

lemma starts_with_iff: "starts_with sub s \<longleftrightarrow> (\<exists>q. s = sub @ q)"
  by (induction sub s rule: starts_with.induct) auto

lemma str_in_iff: "str_in sub s \<longleftrightarrow> (\<exists>p q. s = p @ sub @ q)"
proof (induction s)
  case Nil
  then show ?case by simp
next
  case (Cons c cs)
  show ?case
  proof
    assume "str_in sub (c # cs)"
    then consider "starts_with sub (c # cs)" | "str_in sub cs" by auto
    then show "\<exists>p q. c # cs = p @ sub @ q"
    proof cases
      case 1
      then obtain q where "c # cs = sub @ q" by (auto simp: starts_with_iff)
      then have "c # cs = [] @ sub @ q" by simp
      then show ?thesis by blast
    next
      case 2
      then obtain p q where "cs = p @ sub @ q" using Cons.IH by auto
      then have "c # cs = (c # p) @ sub @ q" by simp
      then show ?thesis by blast
    qed
  next
    assume "\<exists>p q. c # cs = p @ sub @ q"
    then obtain p q where pq: "c # cs = p @ sub @ q" by auto
    show "str_in sub (c # cs)"
    proof (cases p)
      case Nil
      then have "starts_with sub (c # cs)" using pq by (auto simp: starts_with_iff)
      then show ?thesis by simp
    next
      case (Cons a p')
      then have "cs = p' @ sub @ q" using pq by simp
      then have "str_in sub cs" using Cons.IH by blast
      then show ?thesis by simp
    qed
  qed
qed

lemma lower_Nil: "lower [] = []"
  by (simp add: lower_def)

lemma lower_half_true: "lower ''Half True'' = ''half true''"
  by (simp add: lower_def lower_char_def)

lemma lower_pants: "lower ''Pants on Fire!'' = ''pants on fire!''"
  by (simp add: lower_def lower_char_def)

text \<open>
  What one pass through the loop body amounts to: an entry is appended only for a review
  with a non-empty date that parses, that is not before the cutoff, and whose rating matched;
  a naive date makes the comparison raise; and for an aware date the body is a plain
  three-way choice.
\<close>

lemma review_step_Some:
  assumes "review_step lib ct c r = Inr (Some e)"
  shows "\<exists>s d. reviewDate r = Some s \<and> s \<noteq> []
           \<and> fromisoformat lib (replace_char CHR ''Z'' ''+00:00'' s) = Some d
           \<and> datetime_lt d ct = Inr False \<and> rating_is_false r
           \<and> e = flagged_entry lib c r d"
  using assms
  by (auto simp: review_step_def split: option.splits if_splits sum.splits bool.splits)

lemma review_step_naive:
  assumes "reviewDate r = Some s" and "s \<noteq> []"
    and "fromisoformat lib (replace_char CHR ''Z'' ''+00:00'' s) = Some d"
    and "utcoffset d = None"
  shows "review_step lib \<lparr>wall = t, utcoffset = Some 0\<rparr> c r = Inl TypeError"
  using assms by (simp add: review_step_def datetime_lt_def)

lemma review_step_aware:
  assumes "reviewDate r = Some s" and "s \<noteq> []"
    and "fromisoformat lib (replace_char CHR ''Z'' ''+00:00'' s) = Some d"
    and "utcoffset d = Some off"
  shows "review_step lib \<lparr>wall = t, utcoffset = Some 0\<rparr> c r =
           (if wall d - off < t then Inr None
            else if rating_is_false r then Inr (Some (flagged_entry lib c r d))
            else Inr None)"
  using assms by (simp add: review_step_def datetime_lt_def)

text \<open>
  The two loops collect, in order, the entries of the reviews they pass; as a set, the
  result of a run that returns is the set of entries its loop bodies appended.
\<close>

lemma reviews_loop_set:
  "reviews_loop lib ct c rs acc = Inr out \<Longrightarrow>
     set out = set acc \<union> {e. \<exists>r \<in> set rs. review_step lib ct c r = Inr (Some e)}"
proof (induction rs arbitrary: acc)
  case Nil
  then show ?case by auto
next
  case (Cons r rs)
  show ?case
  proof (cases "review_step lib ct c r")
    case (Inl err)
    with Cons.prems show ?thesis by simp
  next
    case (Inr res)
    show ?thesis
    proof (cases res)
      case None
      with Inr Cons.prems have "reviews_loop lib ct c rs acc = Inr out" by simp
      from Cons.IH [OF this] Inr None show ?thesis by auto
    next
      case (Some entry)
      with Inr Cons.prems have "reviews_loop lib ct c rs (acc @ [entry]) = Inr out" by simp
      from Cons.IH [OF this] Inr Some show ?thesis by auto
    qed
  qed
qed

lemma claims_loop_set:
  "claims_loop lib ct cs acc = Inr out \<Longrightarrow>
     set out = set acc \<union>
       {e. \<exists>c \<in> set cs. \<exists>rs. claimReview c = Some rs
             \<and> (\<exists>r \<in> set rs. review_step lib ct c r = Inr (Some e))}"
proof (induction cs arbitrary: acc)
  case Nil
  then show ?case by auto
next
  case (Cons c cs)
  show ?case
  proof (cases "claimReview c")
    case None
    with Cons.prems have "claims_loop lib ct cs acc = Inr out" by simp
    from Cons.IH [OF this] None show ?thesis by auto
  next
    case (Some rs)
    show ?thesis
    proof (cases "reviews_loop lib ct c rs acc")
      case (Inl err)
      with Some Cons.prems show ?thesis by simp
    next
      case (Inr mid)
      with Some Cons.prems have "claims_loop lib ct cs mid = Inr out" by simp
      from Cons.IH [OF this] reviews_loop_set [OF Inr] Some show ?thesis by auto
    qed
  qed
qed

lemma filter_output_set:
  assumes "check_for_recent_false_claims lib now claims = Inr out"
  shows "set out =
       {e. \<exists>c \<in> set claims. \<exists>rs. claimReview c = Some rs
             \<and> (\<exists>r \<in> set rs.
                   review_step lib \<lparr>wall = now - one_day, utcoffset = Some 0\<rparr> c r = Inr (Some e))}"
  using claims_loop_set [of lib "\<lparr>wall = now - one_day, utcoffset = Some 0\<rparr>" claims "[]" out] assms
  by (simp add: check_for_recent_false_claims_def)

lemma filter_single:
  assumes "claimReview c = Some [r]"
  shows "check_for_recent_false_claims lib now [c] =
           (case review_step lib \<lparr>wall = now - one_day, utcoffset = Some 0\<rparr> c r of
              Inl e \<Rightarrow> Inl e
            | Inr None \<Rightarrow> Inr []
            | Inr (Some entry) \<Rightarrow> Inr [entry])"
  using assms
  by (simp add: check_for_recent_false_claims_def split: sum.splits option.splits)

text \<open>
  More than the set: a run that returns yields the entries of its loop bodies in the order
  of the input, claims first and reviews within a claim; and a run returns unless some
  review's date parses to a timestamp without offset.
\<close>

lemma reviews_loop_list:
  "reviews_loop lib ct c rs acc = Inr out \<Longrightarrow>
     out = acc @ List.map_filter
                   (\<lambda>r. case review_step lib ct c r of Inr (Some e) \<Rightarrow> Some e | _ \<Rightarrow> None) rs"
proof (induction rs arbitrary: acc)
  case Nil
  then show ?case by (simp add: List.map_filter_simps)
next
  case (Cons r rs)
  show ?case
  proof (cases "review_step lib ct c r")
    case (Inl err)
    with Cons.prems show ?thesis by simp
  next
    case (Inr res)
    show ?thesis
    proof (cases res)
      case None
      with Inr Cons.prems have "reviews_loop lib ct c rs acc = Inr out" by simp
      from Cons.IH [OF this] Inr None show ?thesis by (simp add: List.map_filter_simps)
    next
      case (Some entry)
      with Inr Cons.prems have "reviews_loop lib ct c rs (acc @ [entry]) = Inr out" by simp
      from Cons.IH [OF this] Inr Some show ?thesis by (simp add: List.map_filter_simps)
    qed
  qed
qed

lemma claims_loop_list:
  "claims_loop lib ct cs acc = Inr out \<Longrightarrow>
     out = acc @ concat (map (\<lambda>c. case claimReview c of
                                     None \<Rightarrow> []
                                   | Some rs \<Rightarrow>
                                       List.map_filter
                                         (\<lambda>r. case review_step lib ct c r of
                                                 Inr (Some e) \<Rightarrow> Some e
                                               | _ \<Rightarrow> None) rs) cs)"
proof (induction cs arbitrary: acc)
  case Nil
  then show ?case by simp
next
  case (Cons c cs)
  show ?case
  proof (cases "claimReview c")
    case None
    with Cons.prems have "claims_loop lib ct cs acc = Inr out" by simp
    from Cons.IH [OF this] None show ?thesis by simp
  next
    case (Some rs)
    show ?thesis
    proof (cases "reviews_loop lib ct c rs acc")
      case (Inl err)
      with Some Cons.prems show ?thesis by simp
    next
      case (Inr mid)
      with Some Cons.prems have "claims_loop lib ct cs mid = Inr out" by simp
      from Cons.IH [OF this] reviews_loop_list [OF Inr] Some show ?thesis by simp
    qed
  qed
qed

lemma filter_list:
  assumes "check_for_recent_false_claims lib now claims = Inr out"
  shows "out = concat (map (\<lambda>c. case claimReview c of
                                     None \<Rightarrow> []
                                   | Some rs \<Rightarrow>
                                       List.map_filter
                                         (\<lambda>r. case review_step lib
                                                       \<lparr>wall = now - one_day, utcoffset = Some 0\<rparr> c r of
                                                 Inr (Some e) \<Rightarrow> Some e
                                               | _ \<Rightarrow> None) rs) claims)"
  using claims_loop_list [of lib "\<lparr>wall = now - one_day, utcoffset = Some 0\<rparr>" claims "[]" out] assms
  by (simp add: check_for_recent_false_claims_def)

lemma reviews_loop_returns:
  "(\<forall>r \<in> set rs. \<forall>err. review_step lib ct c r \<noteq> Inl err) \<Longrightarrow>
     \<exists>out. reviews_loop lib ct c rs acc = Inr out"
proof (induction rs arbitrary: acc)
  case Nil
  then show ?case by simp
next
  case (Cons r rs)
  then obtain res where res: "review_step lib ct c r = Inr res"
    by (cases "review_step lib ct c r") auto
  from Cons have "\<And>a. \<exists>out. reviews_loop lib ct c rs a = Inr out" by simp
  then show ?case using res by (cases res) simp_all
qed

lemma claims_loop_returns:
  "(\<forall>c \<in> set cs. \<forall>rs. claimReview c = Some rs \<longrightarrow>
       (\<forall>r \<in> set rs. \<forall>err. review_step lib ct c r \<noteq> Inl err)) \<Longrightarrow>
     \<exists>out. claims_loop lib ct cs acc = Inr out"
proof (induction cs arbitrary: acc)
  case Nil
  then show ?case by simp
next
  case (Cons c cs)
  from Cons have ih: "\<And>a. \<exists>out. claims_loop lib ct cs a = Inr out" by simp
  show ?case
  proof (cases "claimReview c")
    case None
    then show ?thesis using ih by simp
  next
    case (Some rs)
    with Cons.prems have "\<forall>r \<in> set rs. \<forall>err. review_step lib ct c r \<noteq> Inl err" by simp
    from reviews_loop_returns [OF this] obtain mid where
      "reviews_loop lib ct c rs acc = Inr mid" by blast
    then show ?thesis using Some ih by simp
  qed
qed

lemma review_step_Inl:
  "review_step lib \<lparr>wall = t, utcoffset = Some 0\<rparr> c r = Inl err \<longleftrightarrow>
     err = TypeError \<and>
     (\<exists>s d. reviewDate r = Some s \<and> s \<noteq> []
        \<and> fromisoformat lib (replace_char CHR ''Z'' ''+00:00'' s) = Some d
        \<and> utcoffset d = None)"
  by (auto simp: review_step_def datetime_lt_def split: option.splits if_splits bool.splits)

lemma filter_returns:
  assumes "\<forall>c \<in> set claims. \<forall>rs. claimReview c = Some rs \<longrightarrow>
       (\<forall>r \<in> set rs. \<forall>s d. reviewDate r = Some s
            \<and> fromisoformat lib (replace_char CHR ''Z'' ''+00:00'' s) = Some d
          \<longrightarrow> utcoffset d \<noteq> None)"
  shows "\<exists>out. check_for_recent_false_claims lib now claims = Inr out"
proof -
  have "\<forall>c \<in> set claims. \<forall>rs. claimReview c = Some rs \<longrightarrow>
       (\<forall>r \<in> set rs. \<forall>err.
          review_step lib \<lparr>wall = now - one_day, utcoffset = Some 0\<rparr> c r \<noteq> Inl err)"
    using assms by (auto simp: review_step_Inl)
  from claims_loop_returns [OF this] show ?thesis
    by (simp add: check_for_recent_false_claims_def)
qed

text \<open>
  Claim C7. A review is classified as false exactly when its lowercased textual rating
  contains, as a substring, one of the keywords "false", "pants on fire", "lie",
  "incorrect", "wrong" (an absent rating counts as the empty string). A review rated
  "Half True" is never classified as false, and one rated "Pants on Fire!" always is.
\<close>

theorem rating_is_false_iff:
  "(rating_is_false review \<longleftrightarrow>
      (\<exists>k \<in> {''false'', ''pants on fire'', ''lie'', ''incorrect'', ''wrong''}.
         \<exists>p q. lower (case textualRating review of None \<Rightarrow> [] | Some r \<Rightarrow> r) = p @ k @ q))
   \<and> (textualRating review = Some ''Half True'' \<longrightarrow> \<not> rating_is_false review)
   \<and> (textualRating review = Some ''Pants on Fire!'' \<longrightarrow> rating_is_false review)"
proof (intro conjI impI)
  show "rating_is_false review \<longleftrightarrow>
      (\<exists>k \<in> {''false'', ''pants on fire'', ''lie'', ''incorrect'', ''wrong''}.
         \<exists>p q. lower (case textualRating review of None \<Rightarrow> [] | Some r \<Rightarrow> r) = p @ k @ q)"
    by (simp add: rating_is_false_def Let_def false_terms_def dict_get_def str_in_iff)
next
  assume "textualRating review = Some ''Half True''"
  then show "\<not> rating_is_false review"
    by (simp add: rating_is_false_def false_terms_def dict_get_def lower_half_true)
next
  assume "textualRating review = Some ''Pants on Fire!''"
  then show "rating_is_false review"
    by (simp add: rating_is_false_def false_terms_def dict_get_def lower_pants)
qed

theorem rating_is_false_iff_witness:
  "textualRating review_bare = Some ''Pants on Fire!''
   \<and> rating_is_false review_bare
   \<and> lower ''Pants on Fire!'' = [] @ ''pants on fire'' @ ''!''
   \<and> textualRating (review_bare\<lparr>textualRating := Some ''Half True''\<rparr>) = Some ''Half True''
   \<and> \<not> rating_is_false (review_bare\<lparr>textualRating := Some ''Half True''\<rparr>)"
  using rating_is_false_iff [of review_bare, THEN conjunct2]
    rating_is_false_iff [of "review_bare\<lparr>textualRating := Some ''Half True''\<rparr>", THEN conjunct2]
  by (simp add: review_bare_def lower_pants)

text \<open>
  The 24-hour window. Take a review whose date parses to an aware timestamp, that is, to an instant
  \<open>wall d - off\<close>. The loop body skips it when that instant is strictly earlier than
  \<open>now\<close> less 24 hours, and otherwise lets the rating decide; given a matching rating,
  it is skipped if and only if it is that early. So on a claim with this
  one review the filter returns nothing when the review is too old, whatever its rating,
  and returns its entry when the rating matches and the review is not too old: a review
  exactly 25 hours old is excluded, one 23 hours old with a matching rating is included.
\<close>

lemma window_24_hours:
  assumes "reviewDate review = Some s" and "s \<noteq> []"
    and "fromisoformat lib (replace_char CHR ''Z'' ''+00:00'' s) = Some d"
    and "utcoffset d = Some off"
    and "claimReview clm = Some [review]"
  shows "review_step lib \<lparr>wall = now - one_day, utcoffset = Some 0\<rparr> c review =
           (if wall d - off < now - 24 * 3600000000 then Inr None
            else if rating_is_false review then Inr (Some (flagged_entry lib c review d))
            else Inr None)
       \<and> (rating_is_false review \<longrightarrow>
            (review_step lib \<lparr>wall = now - one_day, utcoffset = Some 0\<rparr> c review = Inr None
               \<longleftrightarrow> wall d - off < now - 24 * 3600000000))
       \<and> (wall d - off < now - 24 * 3600000000 \<longrightarrow>
            check_for_recent_false_claims lib now [clm] = Inr [])
       \<and> (rating_is_false review \<and> \<not> wall d - off < now - 24 * 3600000000 \<longrightarrow>
            check_for_recent_false_claims lib now [clm] = Inr [flagged_entry lib clm review d])
       \<and> (wall d - off = now - 25 * 3600000000 \<longrightarrow>
            check_for_recent_false_claims lib now [clm] = Inr [])
       \<and> (rating_is_false review \<and> wall d - off = now - 23 * 3600000000 \<longrightarrow>
            check_for_recent_false_claims lib now [clm] = Inr [flagged_entry lib clm review d])"
proof -
  have step: "review_step lib \<lparr>wall = now - one_day, utcoffset = Some 0\<rparr> x review =
           (if wall d - off < now - 24 * 3600000000 then Inr None
            else if rating_is_false review then Inr (Some (flagged_entry lib x review d))
            else Inr None)" for x
    using review_step_aware [OF assms(1-4), of "now - one_day" x] by (simp add: one_day_def)
  have single: "check_for_recent_false_claims lib now [clm] =
           (if wall d - off < now - 24 * 3600000000 then Inr []
            else if rating_is_false review then Inr [flagged_entry lib clm review d]
            else Inr [])"
    using filter_single [OF assms(5), of lib now] step [of clm] by simp
  show ?thesis
    using step [of c] single by simp
qed

lemma window_24_hours_example:
  "reviewDate review_bare = Some ''2024-05-01T12:00:00Z''
   \<and> fromisoformat sample_lib (replace_char CHR ''Z'' ''+00:00'' ''2024-05-01T12:00:00Z'')
       = Some \<lparr>wall = noon, utcoffset = Some 0\<rparr>
   \<and> claimReview claim_bare = Some [review_bare]
   \<and> rating_is_false review_bare
   \<and> check_for_recent_false_claims sample_lib (noon + 25 * 3600000000) [claim_bare] = Inr []
   \<and> check_for_recent_false_claims sample_lib (noon + 23 * 3600000000) [claim_bare]
       = Inr [flagged_entry sample_lib claim_bare review_bare \<lparr>wall = noon, utcoffset = Some 0\<rparr>]"
proof -
  have h1: "reviewDate review_bare = Some ''2024-05-01T12:00:00Z''"
    by (simp add: review_bare_def)
  have h2: "''2024-05-01T12:00:00Z'' \<noteq> []" by simp
  have h3: "fromisoformat sample_lib (replace_char CHR ''Z'' ''+00:00'' ''2024-05-01T12:00:00Z'')
       = Some \<lparr>wall = noon, utcoffset = Some 0\<rparr>"
    by (simp add: sample_lib_def replace_char_def)
  have h4: "utcoffset \<lparr>wall = noon, utcoffset = Some 0\<rparr> = Some 0" by simp
  have h5: "claimReview claim_bare = Some [review_bare]"
    by (simp add: claim_bare_def)
  have h6: "rating_is_false review_bare"
    by (simp add: rating_is_false_def review_bare_def dict_get_def lower_pants false_terms_def)
  note old = window_24_hours [OF h1 h2 h3 h4 h5, of "noon + 25 * 3600000000"]
  note new = window_24_hours [OF h1 h2 h3 h4 h5, of "noon + 23 * 3600000000"]
  show ?thesis
    using old new h1 h3 h5 h6 by simp
qed

text \<open>
  The same for every input: when the filter returns, its result holds exactly the entries
  of the reviews, anywhere in the input, whose date parses to an instant that is not
  strictly earlier than \<open>now\<close> less 24 hours and whose rating matched.
\<close>

lemma filter_window:
  assumes "check_for_recent_false_claims lib now claims = Inr out"
  shows "e \<in> set out \<longleftrightarrow>
     (\<exists>c \<in> set claims. \<exists>rs. claimReview c = Some rs \<and>
        (\<exists>r \<in> set rs. \<exists>s d off. reviewDate r = Some s \<and> s \<noteq> []
            \<and> fromisoformat lib (replace_char CHR ''Z'' ''+00:00'' s) = Some d
            \<and> utcoffset d = Some off
            \<and> \<not> wall d - off < now - 24 * 3600000000
            \<and> rating_is_false r
            \<and> e = flagged_entry lib c r d))"
proof -
  have step: "review_step lib \<lparr>wall = now - one_day, utcoffset = Some 0\<rparr> c r = Inr (Some e) \<longleftrightarrow>
      (\<exists>s d off. reviewDate r = Some s \<and> s \<noteq> []
            \<and> fromisoformat lib (replace_char CHR ''Z'' ''+00:00'' s) = Some d
            \<and> utcoffset d = Some off
            \<and> \<not> wall d - off < now - 24 * 3600000000
            \<and> rating_is_false r
            \<and> e = flagged_entry lib c r d)" for c r
    by (auto simp: review_step_def datetime_lt_def one_day_def
        split: option.splits if_splits bool.splits)
  show ?thesis
    unfolding filter_output_set [OF assms] by (simp add: step)
qed

text \<open>
  Claim C6. Every review in the filter's input is skipped if and only if its timestamp is
  strictly earlier than \<open>now\<close> less 24 hours: one that is 25 hours old is excluded
  from the result, one that is 23 hours old, with a matching rating, is included. The
  code does so for dates that carry an offset (the lemmas above). A date without offset,
  such as \<^verbatim>\<open>2024-05-01T12:00:00\<close>, parses to a naive timestamp; comparing it with the
  aware cutoff at line 104 raises \<^verbatim>\<open>TypeError\<close>, outside the \<^verbatim>\<open>try\<close> of lines 97-101
  that lets a bad date skip its review alone. The filter then returns no result: a
  review 23 hours old with a matching rating that stands after such a review is not
  included, although alone it is, and a review 25 hours old with such a date is not
  skipped but ends the run.
\<close>

theorem naive_date_raises:
  "check_for_recent_false_claims sample_lib (noon + 23 * 3600000000)
       [\<lparr>claim_text = None, claimReview = Some [review_naive, review_bare]\<rparr>] = Inl TypeError
   \<and> check_for_recent_false_claims sample_lib (noon + 23 * 3600000000)
       [\<lparr>claim_text = None, claimReview = Some [review_bare]\<rparr>]
     = Inr [\<lparr>date = ''2024-05-01'', claim = ''Unknown claim'', rating = ''Pants on Fire!'',
              source = ''Unknown source'', url = []\<rparr>]
   \<and> check_for_recent_false_claims sample_lib (noon + 25 * 3600000000)
       [\<lparr>claim_text = None, claimReview = Some [review_naive]\<rparr>] = Inl TypeError"
  by (simp add: check_for_recent_false_claims_def review_step_def review_bare_def
      review_naive_def sample_lib_def replace_char_def
      datetime_lt_def one_day_def noon_def rating_is_false_def dict_get_def lower_pants
      false_terms_def flagged_entry_def)



text \<open>
  Claim C10. A review whose \<^verbatim>\<open>textualRating\<close> is absent is never classified as
  false: its rating is read as the empty string, which contains no keyword, so the loop
  body never appends an entry for it. Hence every entry in the filter's output carries the
  textual rating that some review of the input really has, never the default "Unknown".
\<close>

theorem unrated_never_flagged:
  "(textualRating review = None \<longrightarrow>
      \<not> rating_is_false review
      \<and> lower (dict_get (textualRating review) []) = []
      \<and> (\<forall>e. review_step lib cutoff clm review \<noteq> Inr (Some e)))
   \<and> (check_for_recent_false_claims lib now claims = Inr out \<longrightarrow>
        (\<forall>e \<in> set out.
           (\<exists>c \<in> set claims. \<exists>rs. claimReview c = Some rs
              \<and> (\<exists>r \<in> set rs. textualRating r = Some (rating e) \<and> rating_is_false r))
           \<and> rating e \<noteq> ''Unknown''))"
proof (intro conjI impI allI ballI)
  assume n: "textualRating review = None"
  then show nf: "\<not> rating_is_false review"
    by (simp add: rating_is_false_def dict_get_def lower_def false_terms_def)
  show "lower (dict_get (textualRating review) []) = []"
    using n by (simp add: dict_get_def lower_def)
  fix e
  show "review_step lib cutoff clm review \<noteq> Inr (Some e)"
    using review_step_Some [of lib cutoff clm review e] nf by blast
next
  fix e
  assume run: "check_for_recent_false_claims lib now claims = Inr out" and e: "e \<in> set out"
  from filter_output_set [OF run] e obtain c rs r where
    c: "c \<in> set claims" and rs: "claimReview c = Some rs" and r: "r \<in> set rs"
    and st: "review_step lib \<lparr>wall = now - one_day, utcoffset = Some 0\<rparr> c r = Inr (Some e)"
    by auto
  from review_step_Some [OF st] obtain d where
    rf: "rating_is_false r" and ed: "e = flagged_entry lib c r d"
    by blast
  have "textualRating r \<noteq> None"
  proof
    assume "textualRating r = None"
    then have "\<not> rating_is_false r"
      by (simp add: rating_is_false_def dict_get_def lower_def false_terms_def)
    with rf show False by simp
  qed
  then obtain t where t: "textualRating r = Some t" by auto
  then have re: "rating e = t"
    using ed by (simp add: flagged_entry_def dict_get_def)
  show "\<exists>c \<in> set claims. \<exists>rs. claimReview c = Some rs
              \<and> (\<exists>r \<in> set rs. textualRating r = Some (rating e) \<and> rating_is_false r)"
    using c rs r t re rf by blast
  show "rating e \<noteq> ''Unknown''"
  proof
    assume "rating e = ''Unknown''"
    then have "textualRating r = Some ''Unknown''" using t re by simp
    then have "\<not> rating_is_false r"
      by (simp add: rating_is_false_def dict_get_def lower_def lower_char_def false_terms_def)
    with rf show False by simp
  qed
qed

theorem unrated_never_flagged_witness:
  "textualRating review_unrated = None
   \<and> \<not> rating_is_false review_unrated
   \<and> check_for_recent_false_claims sample_lib noon
        [\<lparr>claim_text = None, claimReview = Some [review_unrated, review_bare]\<rparr>]
      = Inr [\<lparr>date = ''2024-05-01'', claim = ''Unknown claim'', rating = ''Pants on Fire!'',
               source = ''Unknown source'', url = []\<rparr>]
   \<and> rating \<lparr>date = ''2024-05-01'', claim = ''Unknown claim'', rating = ''Pants on Fire!'',
               source = ''Unknown source'', url = []\<rparr> \<noteq> ''Unknown''"
proof -
  have h1: "textualRating review_unrated = None"
    by (simp add: review_unrated_def)
  have h2: "check_for_recent_false_claims sample_lib noon
        [\<lparr>claim_text = None, claimReview = Some [review_unrated, review_bare]\<rparr>]
      = Inr [\<lparr>date = ''2024-05-01'', claim = ''Unknown claim'', rating = ''Pants on Fire!'',
               source = ''Unknown source'', url = []\<rparr>]"
    by (simp add: check_for_recent_false_claims_def review_step_def review_bare_def
        review_unrated_def sample_lib_def replace_char_def
        datetime_lt_def one_day_def noon_def rating_is_false_def dict_get_def lower_pants
        false_terms_def flagged_entry_def lower_Nil)
  note t = unrated_never_flagged [where review = review_unrated and lib = sample_lib
      and now = noon
      and claims = "[\<lparr>claim_text = None, claimReview = Some [review_unrated, review_bare]\<rparr>]"
      and out = "[\<lparr>date = ''2024-05-01'', claim = ''Unknown claim'', rating = ''Pants on Fire!'',
               source = ''Unknown source'', url = []\<rparr>]"]
  show ?thesis
    using t h1 h2 by simp
qed

section \<open>Properties of the orchestrator\<close>

text \<open>
  Loading succeeds unless the file is malformed or a missing file cannot be created, and
  it writes only in the latter case; a successful save appends one record to the log.
\<close>

lemma load_data_ok:
  assumes "disk w \<noteq> Malformed" and "writable w"
  shows "load_data w =
           (Inr (case disk w of Holds d \<Rightarrow> d | _ \<Rightarrow> default_data),
            if disk w = Absent
            then w\<lparr>disk := Holds default_data, writes := writes w @ [default_data]\<rparr>
            else w)"
  using assms by (cases "disk w") (simp_all add: load_data_def save_data_def)

lemma load_data_Inr:
  assumes "load_data w = (Inr data, w1)"
  shows "writable w1 = writable w \<and> api_key w1 = api_key w \<and> http_get w1 = http_get w
       \<and> clock w1 = clock w
       \<and> writes w1 = writes w @ (if disk w = Absent then [default_data] else [])"
  using assms
  by (cases "disk w") (auto simp: load_data_def save_data_def split: if_splits)

lemma save_data_Inr:
  assumes "save_data data w = (Inr u, w')"
  shows "writes w' = writes w @ [data] \<and> disk w' = Holds data"
  using assms by (auto simp: save_data_def split: if_splits)

lemma main_without_key_Inr:
  assumes "main_without_key w = (Inr u, w')"
  shows "length (writes w') = length (writes w) + (if disk w = Absent then 2 else 1)
       \<and> disk w' = Holds (last (writes w'))"
proof -
  from assms obtain data w1 where
    l: "load_data w = (Inr data, w1)"
    and s: "save_data (data\<lparr>days_since_lie := days_since_lie data + 1\<rparr>) w1 = (Inr u, w')"
    by (auto simp: main_without_key_def split: prod.splits sum.splits)
  from load_data_Inr [OF l] save_data_Inr [OF s] show ?thesis by simp
qed

lemma main_with_key_Inr:
  assumes "main_with_key lib key w = (Inr u, w')"
  shows "length (writes w') = length (writes w) + (if disk w = Absent then 2 else 1)
       \<and> disk w' = Holds (last (writes w'))"
proof -
  from assms obtain data w1 final where
    l: "load_data w = (Inr data, w1)"
    and s: "save_data final w1 = (Inr u, w')"
    by (auto simp: main_with_key_def Let_def split: prod.splits sum.splits if_splits)
  from load_data_Inr [OF l] save_data_Inr [OF s] show ?thesis by simp
qed

lemma main_Inr:
  assumes "fst (main lib w) = Inr ()"
  shows "length (writes (snd (main lib w))) = length (writes w) + (if disk w = Absent then 2 else 1)
       \<and> disk (snd (main lib w)) = Holds (last (writes (snd (main lib w))))"
proof -
  obtain w' where m: "main lib w = (Inr (), w')"
    using assms by (cases "main lib w") auto
  then have "main_without_key w = (Inr (), w') \<or> (\<exists>key. main_with_key lib key w = (Inr (), w'))"
    by (auto simp: main_def split: option.splits if_splits)
  then show ?thesis
    using m main_without_key_Inr main_with_key_Inr by auto
qed

lemma main_without_key_ok:
  assumes "disk w \<noteq> Malformed" and "writable w"
  shows "main_without_key w =
     (let data = (case disk w of Holds d \<Rightarrow> d | _ \<Rightarrow> default_data);
          final = data\<lparr>days_since_lie := days_since_lie data + 1\<rparr>
      in (Inr (), w\<lparr>disk := Holds final,
                    writes := writes w @ (if disk w = Absent then [default_data] else []) @ [final]\<rparr>))"
  using assms
  by (simp add: main_without_key_def load_data_ok save_data_def Let_def)

lemma main_with_key_ok:
  assumes "disk w \<noteq> Malformed" and "writable w"
  shows "main_with_key lib key w =
     (let data = (case disk w of Holds d \<Rightarrow> d | _ \<Rightarrow> default_data);
          first = (if disk w = Absent then [default_data] else []);
          claims = fetch_fact_checks w key
      in if claims = [] then
           (Inr (), w\<lparr>disk := Holds (data\<lparr>days_since_lie := days_since_lie data + 1\<rparr>),
                      writes := writes w @ first @ [data\<lparr>days_since_lie := days_since_lie data + 1\<rparr>]\<rparr>)
         else
           (case check_for_recent_false_claims lib (clock w) claims of
              Inl e \<Rightarrow> (Inl e, w\<lparr>disk := (if disk w = Absent then Holds default_data else disk w),
                                 writes := writes w @ first\<rparr>)
            | Inr out \<Rightarrow>
                (Inr (), w\<lparr>disk := Holds (update_counter data out),
                           writes := writes w @ first @ [update_counter data out]\<rparr>)))"
  using assms
  by (simp add: main_with_key_def load_data_ok save_data_def Let_def fetch_fact_checks_def
      split: sum.splits)

text \<open>
  Claim C8. When \<^verbatim>\<open>data.json\<close> exists but is malformed, \<^verbatim>\<open>load_data\<close> raises
  \<^verbatim>\<open>JSONDecodeError\<close>, the exception leaves \<^verbatim>\<open>main\<close> on either path, and the world
  is left as it was: nothing is written after the failure and the file is not reset.
\<close>

theorem malformed_state_aborts:
  assumes "disk w = Malformed"
  shows "load_data w = (Inl JSONDecodeError, w)
       \<and> main lib w = (Inl JSONDecodeError, w)
       \<and> writes (snd (main lib w)) = writes w
       \<and> disk (snd (main lib w)) = Malformed"
  using assms
  by (simp add: load_data_def main_def main_without_key_def main_with_key_def
      split: option.splits)

theorem malformed_state_aborts_witness:
  "disk world_bad = Malformed
   \<and> load_data world_bad = (Inl JSONDecodeError, world_bad)
   \<and> fst (main sample_lib world_bad) = Inl JSONDecodeError
   \<and> writes (snd (main sample_lib world_bad)) = []"
proof -
  have h: "disk world_bad = Malformed" by (simp add: world_bad_def)
  have w: "writes world_bad = []" by (simp add: world_bad_def)
  show ?thesis
    using malformed_state_aborts [OF h, of sample_lib] h w by simp
qed

text \<open>
  Claim C5, as stated: on each of the three paths the state file is written exactly once
  before the run ends with success. When the file is absent, \<^verbatim>\<open>load_data\<close> writes the
  default record and \<^verbatim>\<open>main\<close> writes again at the end: two writes.
\<close>

theorem main_writes_once_counterexample:
  "fst (main sample_lib world_0) = Inr ()
   \<and> writes (snd (main sample_lib world_0))
       = [default_data, default_data\<lparr>days_since_lie := 1\<rparr>]
   \<and> length (writes (snd (main sample_lib world_0))) \<noteq> 1"
  by (simp add: main_def main_without_key_def load_data_def save_data_def world_0_def
      default_data_def)

text \<open>
  Claim C5, amended. Every run that ends with success has written the state file exactly
  once when the file existed at load, and exactly twice when it was absent (the default
  record first); the last write is the one \<^verbatim>\<open>main\<close> ends with, and the file holds it.
  A run does end with success on each of the three paths (no key, no claims fetched,
  filter and update) whenever the file is not malformed, it can be written, and, on the
  third path, the filter returns; the record written last is then the loaded one with the
  counter incremented on the first two paths and the updater's result on the third.
\<close>

theorem main_writes:
  "let data = (case disk w of Holds d \<Rightarrow> d | _ \<Rightarrow> default_data);
       first = (if disk w = Absent then [default_data] else []);
       bumped = data\<lparr>days_since_lie := days_since_lie data + 1\<rparr>;
       finish = (\<lambda>final. (Inr (), w\<lparr>disk := Holds final, writes := writes w @ first @ [final]\<rparr>))
   in (fst (main lib w) = Inr () \<longrightarrow>
         length (writes (snd (main lib w))) = length (writes w) + (if disk w = Absent then 2 else 1)
         \<and> disk (snd (main lib w)) = Holds (last (writes (snd (main lib w)))))
    \<and> (disk w \<noteq> Malformed \<and> writable w \<and> (api_key w = None \<or> api_key w = Some [])
          \<longrightarrow> main lib w = finish bumped)
    \<and> (disk w \<noteq> Malformed \<and> writable w \<and> api_key w = Some key \<and> key \<noteq> []
          \<and> fetch_fact_checks w key = []
          \<longrightarrow> main lib w = finish bumped)
    \<and> (disk w \<noteq> Malformed \<and> writable w \<and> api_key w = Some key \<and> key \<noteq> []
          \<and> fetch_fact_checks w key \<noteq> []
          \<and> check_for_recent_false_claims lib (clock w) (fetch_fact_checks w key) = Inr out
          \<longrightarrow> main lib w = finish (update_counter data out))"
  unfolding Let_def
proof (intro conjI impI)
  assume "fst (main lib w) = Inr ()"
  from main_Inr [OF this]
  show "length (writes (snd (main lib w))) = length (writes w) + (if disk w = Absent then 2 else 1)"
    and "disk (snd (main lib w)) = Holds (last (writes (snd (main lib w))))"
    by simp_all
next
  assume a: "disk w \<noteq> Malformed \<and> writable w \<and> (api_key w = None \<or> api_key w = Some [])"
  then have "main lib w = main_without_key w"
    by (auto simp: main_def)
  with a main_without_key_ok [of w]
  show "main lib w =
    (Inr (), w\<lparr>disk := Holds ((case disk w of Holds d \<Rightarrow> d | _ \<Rightarrow> default_data)
                    \<lparr>days_since_lie := days_since_lie (case disk w of Holds d \<Rightarrow> d | _ \<Rightarrow> default_data) + 1\<rparr>),
               writes := writes w @ (if disk w = Absent then [default_data] else []) @
                 [(case disk w of Holds d \<Rightarrow> d | _ \<Rightarrow> default_data)
                    \<lparr>days_since_lie := days_since_lie (case disk w of Holds d \<Rightarrow> d | _ \<Rightarrow> default_data) + 1\<rparr>]\<rparr>)"
    by (simp add: Let_def)
next
  assume a: "disk w \<noteq> Malformed \<and> writable w \<and> api_key w = Some key \<and> key \<noteq> []
          \<and> fetch_fact_checks w key = []"
  then have "main lib w = main_with_key lib key w"
    by (simp add: main_def)
  with a main_with_key_ok [of w lib key]
  show "main lib w =
    (Inr (), w\<lparr>disk := Holds ((case disk w of Holds d \<Rightarrow> d | _ \<Rightarrow> default_data)
                    \<lparr>days_since_lie := days_since_lie (case disk w of Holds d \<Rightarrow> d | _ \<Rightarrow> default_data) + 1\<rparr>),
               writes := writes w @ (if disk w = Absent then [default_data] else []) @
                 [(case disk w of Holds d \<Rightarrow> d | _ \<Rightarrow> default_data)
                    \<lparr>days_since_lie := days_since_lie (case disk w of Holds d \<Rightarrow> d | _ \<Rightarrow> default_data) + 1\<rparr>]\<rparr>)"
    by (simp add: Let_def)
next
  assume a: "disk w \<noteq> Malformed \<and> writable w \<and> api_key w = Some key \<and> key \<noteq> []
          \<and> fetch_fact_checks w key \<noteq> []
          \<and> check_for_recent_false_claims lib (clock w) (fetch_fact_checks w key) = Inr out"
  then have "main lib w = main_with_key lib key w"
    by (simp add: main_def)
  with a main_with_key_ok [of w lib key]
  show "main lib w =
    (Inr (), w\<lparr>disk := Holds (update_counter (case disk w of Holds d \<Rightarrow> d | _ \<Rightarrow> default_data) out),
               writes := writes w @ (if disk w = Absent then [default_data] else []) @
                 [update_counter (case disk w of Holds d \<Rightarrow> d | _ \<Rightarrow> default_data) out]\<rparr>)"
    by (simp add: Let_def)
qed

theorem main_writes_witness:
  "disk world_1 \<noteq> Malformed \<and> writable world_1 \<and> api_key world_1 = Some ''key''
   \<and> ''key'' \<noteq> [] \<and> fetch_fact_checks world_1 ''key'' \<noteq> []
   \<and> check_for_recent_false_claims sample_lib (clock world_1) (fetch_fact_checks world_1 ''key'')
       = Inr [\<lparr>date = ''2024-05-01'', claim = ''Unknown claim'', rating = ''Pants on Fire!'',
               source = ''Unknown source'', url = []\<rparr>]
   \<and> fst (main sample_lib world_1) = Inr ()
   \<and> writes (snd (main sample_lib world_1))
       = [\<lparr>days_since_lie = 0, term_1 = 30573, term_2 = 11,
           recent_lies = [\<lparr>date = ''2024-05-01'', claim = ''Unknown claim'',
                            rating = ''Pants on Fire!'', source = ''Unknown source'', url = []\<rparr>]\<rparr>]
   \<and> length (writes (snd (main sample_lib world_1))) = 1"
proof -
  have h1: "disk world_1 \<noteq> Malformed \<and> writable world_1 \<and> api_key world_1 = Some ''key''"
    by (simp add: world_1_def)
  have h2: "fetch_fact_checks world_1 ''key'' = [claim_bare]"
    by (simp add: fetch_fact_checks_def world_1_def dict_get_def)
  have h3: "check_for_recent_false_claims sample_lib (clock world_1) [claim_bare]
       = Inr [\<lparr>date = ''2024-05-01'', claim = ''Unknown claim'', rating = ''Pants on Fire!'',
               source = ''Unknown source'', url = []\<rparr>]"
    by (simp add: check_for_recent_false_claims_def world_1_def claim_bare_def review_step_def
        review_bare_def sample_lib_def replace_char_def
        datetime_lt_def one_day_def noon_def rating_is_false_def dict_get_def lower_pants
        false_terms_def flagged_entry_def)
  note t = main_writes [of world_1 sample_lib "''key''"
      "[\<lparr>date = ''2024-05-01'', claim = ''Unknown claim'', rating = ''Pants on Fire!'',
               source = ''Unknown source'', url = []\<rparr>]"]
  have d: "disk world_1 = Holds state_5" "writes world_1 = []"
    by (simp_all add: world_1_def)
  show ?thesis
    using t h1 h2 h3 d
    by (simp add: Let_def update_counter_def state_5_def)
qed

end
